theory Spec2Isabelle
  imports Main "HOL-Library.Word" "HOL-Library.AList" "HOL-Library.Sublist"
begin

unbundle bit_operations_syntax

section \<open>Data model\<close>

type_synonym byte = "8 word"

text \<open>
  Go's \<^verbatim>\<open>time.Time\<close> as the two readings the bridge uses: \<^verbatim>\<open>Unix()\<close> (seconds since
  the epoch) and \<^verbatim>\<open>Nanosecond()\<close> (the offset within the second, in \<open>[0, 999999999]\<close>).
\<close>

record gotime =
  unix :: int
  nanosecond :: int

text \<open>
  \<^verbatim>\<open>type Message struct { Time time.Time; Record map[string]string; tag *string }\<close>.
  A Go map is kept as an association list whose order stands for the (unspecified)
  iteration order of the map; a nil map and an empty map are both \<open>[]\<close>, as Go reads
  them alike. The tag pointer is an option, \<open>None\<close> for nil.
\<close>

record Message =
  Time :: gotime
  Record :: "(string \<times> string) list"
  tag :: "string option"

text \<open>\<^verbatim>\<open>func (m Message) Tag() string\<close>\<close>

definition Tag :: "Message \<Rightarrow> string" where
  "Tag m = (case tag m of None \<Rightarrow> [] | Some t \<Rightarrow> t)"

text \<open>
  The user's implementations are interface values. What the bridge can observe of them
  is whether \<^verbatim>\<open>Init\<close> returns an error and, for an output plugin, how \<^verbatim>\<open>Flush\<close> consumes
  its channel: it receives a number of messages and returns (\<open>None\<close>: it never stops
  receiving), or it returns an error at once.
\<close>

datatype flush_behaviour = Receives "nat option" | FailsAtOnce

record InputPlugin =
  in_init_fails :: bool

record OutputPlugin =
  out_init_fails :: bool
  out_flush :: flush_behaviour

text \<open>\<^verbatim>\<open>context.Context\<close> as the bridge reads it: nil, live, or done with its \<^verbatim>\<open>Err()\<close>.\<close>

datatype ctx_err = Canceled | DeadlineExceeded

datatype go_context = NilContext | Running | Done ctx_err

text \<open>A channel: its capacity, its buffered messages and whether it was closed.\<close>

record chan =
  capacity :: nat
  queue :: "Message list"
  closed :: bool

datatype plugin_kind = Input | Output

text \<open>
  The package-level variables of the bridge. Three fields are not variables of the
  source but record what its goroutines and the user's code have done: \<open>starts\<close>
  counts the executions of the start action passed to \<^verbatim>\<open>once.Do\<close>, \<open>flush_budget\<close> is
  the number of messages the user's \<^verbatim>\<open>Flush\<close> will still receive (\<open>Some 0\<close>: nobody
  receives, \<open>None\<close>: unbounded), and \<open>delivered\<close> lists the messages \<^verbatim>\<open>Flush\<close> has
  received.
\<close>

record globals =
  atomicUint32 :: "32 word"
  theName :: string
  theDesc :: string
  theInput :: "InputPlugin option"
  theOutput :: "OutputPlugin option"
  registerWG :: int
  initWG :: int
  once :: bool
  runCtx :: go_context
  theChannel :: "chan option"
  buflock :: bool
  unregister :: "plugin_kind option"
  starts :: nat
  flush_budget :: "nat option"
  delivered :: "Message list"

text \<open>The variables after the package's \<^verbatim>\<open>init\<close>: both wait groups hold one.\<close>

definition initial :: globals where
  "initial = \<lparr> atomicUint32 = 0, theName = [], theDesc = [], theInput = None,
     theOutput = None, registerWG = 1, initWG = 1, once = False, runCtx = NilContext,
     theChannel = None, buflock = False, unregister = None, starts = 0,
     flush_budget = Some 0, delivered = [] \<rparr>"

section \<open>Registration\<close>

datatype panic = AlreadyRegistered | NegativeWaitGroup | SendOnClosed | NilDereference

text \<open>\<^verbatim>\<open>func mustOnce()\<close>: panics when the flag is 1, stores 1 otherwise.\<close>

definition mustOnce :: "globals \<Rightarrow> panic + globals" where
  "mustOnce s = (if atomicUint32 s = 1 then Inl AlreadyRegistered
                 else Inr (s\<lparr>atomicUint32 := 1\<rparr>))"

definition RegisterInput :: "string \<Rightarrow> string \<Rightarrow> InputPlugin \<Rightarrow> globals \<Rightarrow> panic + globals" where
  "RegisterInput name desc inp s =
     (case mustOnce s of
        Inl p \<Rightarrow> Inl p
      | Inr s' \<Rightarrow> Inr (s'\<lparr>theName := name, theDesc := desc, theInput := Some inp\<rparr>))"

definition RegisterOutput :: "string \<Rightarrow> string \<Rightarrow> OutputPlugin \<Rightarrow> globals \<Rightarrow> panic + globals" where
  "RegisterOutput name desc out s =
     (case mustOnce s of
        Inl p \<Rightarrow> Inl p
      | Inr s' \<Rightarrow> Inr (s'\<lparr>theName := name, theDesc := desc, theOutput := Some out\<rparr>))"

text \<open>A registration call of either role, and a run of such calls that stops at a panic.\<close>

datatype registration =
    RegIn string string InputPlugin
  | RegOut string string OutputPlugin

fun register :: "registration \<Rightarrow> globals \<Rightarrow> panic + globals" where
  "register (RegIn name desc inp) s = RegisterInput name desc inp s"
| "register (RegOut name desc out) s = RegisterOutput name desc out s"

fun register_all :: "registration list \<Rightarrow> globals \<Rightarrow> panic + globals" where
  "register_all [] s = Inr s"
| "register_all (r # rs) s =
     (case register r s of Inl p \<Rightarrow> Inl p | Inr s' \<Rightarrow> register_all rs s')"

definition registrations :: "globals \<Rightarrow> nat" where
  "registrations s =
     (if theInput s = None then 0 else 1) + (if theOutput s = None then 0 else 1)"

section \<open>Host-facing entry points: register and init\<close>

text \<open>
  Modelled from the spec: the status codes \<^verbatim>\<open>FLB_ERROR\<close>, \<^verbatim>\<open>FLB_OK\<close> and \<^verbatim>\<open>FLB_RETRY\<close>.
  Their declarations, in the packages \<^verbatim>\<open>input\<close> and \<^verbatim>\<open>output\<close>, are not among the
  sources; the spec has every entry point return one of three statuses, OK, ERROR or
  RETRY.
\<close>

datatype status = FLB_ERROR | FLB_OK | FLB_RETRY

text \<open>
  What a call of an entry point can come to: it returns a status, it blocks for ever,
  or it panics.
\<close>

datatype outcome = Return status | Blocks | Panics panic

text \<open>\<^verbatim>\<open>WaitGroup.Done\<close>: the counter goes down by one and must not become negative.\<close>

definition wg_done :: "int \<Rightarrow> panic + int" where
  "wg_done n = (if n - 1 < 0 then Inl NegativeWaitGroup else Inr (n - 1))"

text \<open>
  \<^verbatim>\<open>func FLBPluginRegister(def unsafe.Pointer) int\<close>. \<open>host\<close> is the value the host
  binding \<^verbatim>\<open>input.FLBPluginRegister\<close> or \<^verbatim>\<open>output.FLBPluginRegister\<close> returns. The
  deferred \<^verbatim>\<open>registerWG.Done()\<close> runs when the body has returned.
\<close>

definition FLBPluginRegister :: "status \<Rightarrow> globals \<Rightarrow> outcome \<times> globals" where
  "FLBPluginRegister host s =
     (let (r, s1) =
        (if theInput s = None \<and> theOutput s = None then (FLB_RETRY, s)
         else if theInput s \<noteq> None then (host, s\<lparr>unregister := Some Input\<rparr>)
         else (host, s\<lparr>unregister := Some Output\<rparr>))
      in case wg_done (registerWG s1) of
           Inl p \<Rightarrow> (Panics p, s1)
         | Inr n \<Rightarrow> (Return r, s1\<lparr>registerWG := n\<rparr>))"

text \<open>
  \<^verbatim>\<open>func FLBPluginInit(ptr unsafe.Pointer) int\<close>. \<open>cmetrics_fails\<close> says whether the
  host binding \<^verbatim>\<open>FLBPluginGetCMetricsContext\<close> returns an error. \<^verbatim>\<open>registerWG.Wait()\<close>
  blocks while the counter is not zero; the deferred \<^verbatim>\<open>initWG.Done()\<close> runs when the
  body has returned.
\<close>

definition FLBPluginInit :: "bool \<Rightarrow> globals \<Rightarrow> outcome \<times> globals" where
  "FLBPluginInit cmetrics_fails s =
     (if registerWG s \<noteq> 0 then (Blocks, s)
      else
        let r =
          (if theInput s = None \<and> theOutput s = None then FLB_RETRY
           else if cmetrics_fails then FLB_ERROR
           else if (case theInput s of
                      Some inp \<Rightarrow> in_init_fails inp
                    | None \<Rightarrow> (case theOutput s of
                                 Some out \<Rightarrow> out_init_fails out
                               | None \<Rightarrow> False))
           then FLB_ERROR
           else FLB_OK)
        in case wg_done (initWG s) of
             Inl p \<Rightarrow> (Panics p, s)
           | Inr n \<Rightarrow> (Return r, s\<lparr>initWG := n\<rparr>))"

section \<open>Output pipeline: the flush entry point\<close>

text \<open>
  The dynamic types a value decoded into \<^verbatim>\<open>any\<close> can have: nil, bool, an integer,
  \<^verbatim>\<open>string\<close>, \<^verbatim>\<open>[]uint8\<close>, \<^verbatim>\<open>bigEndianTime\<close>, \<^verbatim>\<open>[]any\<close> and \<^verbatim>\<open>map[any]any\<close> (its entries in
  iteration order).
\<close>

datatype any =
    ANil
  | ABool bool
  | AInt int
  | AString string
  | ABytes "byte list"
  | ATime gotime
  | ASlice "any list"
  | AMap "(any \<times> any) list"

text \<open>
  What one \<^verbatim>\<open>dec.Decode(&entry)\<close> yields: an error other than \<^verbatim>\<open>io.EOF\<close>, or the entry.
  The decoder of a blob is the list of these up to \<^verbatim>\<open>io.EOF\<close>.
\<close>

datatype decoded = DecodeErr | Entry "any list"

datatype flush_error =
    UnexpectedEntryLength nat
  | UnexpectedTimeType
  | UnexpectedRecordType
  | UnexpectedKeyType
  | UnexpectedValueType

text \<open>Go's \<^verbatim>\<open>string(val)\<close> for \<^verbatim>\<open>val []uint8\<close>, and \<^verbatim>\<open>[]byte(s)\<close>.\<close>

definition string_of_bytes :: "byte list \<Rightarrow> string" where
  "string_of_bytes bs = map (\<lambda>b. char_of (unat b)) bs"

definition bytes_of_string :: "string \<Rightarrow> byte list" where
  "bytes_of_string cs = map (\<lambda>c. word_of_nat (of_char c)) cs"

text \<open>
  The loop \<^verbatim>\<open>for k, v := range recVal\<close> of \<^verbatim>\<open>FLBPluginFlush\<close>: each key must be a
  string and each value a byte slice; \<^verbatim>\<open>rec[key] = string(val)\<close>.
\<close>

fun build_rec :: "(any \<times> any) list \<Rightarrow> (string \<times> string) list
    \<Rightarrow> flush_error + (string \<times> string) list" where
  "build_rec [] rec = Inr rec"
| "build_rec ((k, v) # kvs) rec =
     (case k of
        AString key \<Rightarrow>
          (case v of
             ABytes val \<Rightarrow> build_rec kvs (AList.update key (string_of_bytes val) rec)
           | _ \<Rightarrow> Inl UnexpectedValueType)
      | _ \<Rightarrow> Inl UnexpectedKeyType)"

text \<open>
  The body of the decode loop from the length check of the entry to the message that
  is sent: \<^verbatim>\<open>Message{Time: t, Record: rec, tag: &tag}\<close>.
\<close>

definition entry_message :: "string \<Rightarrow> any list \<Rightarrow> flush_error + Message" where
  "entry_message ctag entry =
     (if length entry \<noteq> 2 then Inl (UnexpectedEntryLength (length entry))
      else case entry ! 0 of
        ATime ft \<Rightarrow>
          (case entry ! 1 of
             AMap recVal \<Rightarrow>
               (case (if length recVal \<noteq> 0 then build_rec recVal [] else Inr []) of
                  Inl e \<Rightarrow> Inl e
                | Inr rec \<Rightarrow> Inr \<lparr>Time = ft, Record = rec, tag = Some ctag\<rparr>)
           | _ \<Rightarrow> Inl UnexpectedRecordType)
      | _ \<Rightarrow> Inl UnexpectedTimeType)"

text \<open>
  One step of a count-down: \<open>None\<close> stays, \<open>Some n\<close> loses one.
\<close>

fun tick :: "nat option \<Rightarrow> nat option" where
  "tick None = None"
| "tick (Some n) = Some (n - 1)"

text \<open>
  The context as one \<^verbatim>\<open>select\<close> on \<^verbatim>\<open>runCtx.Done()\<close> finds it. A cancel comes from a
  concurrent \<^verbatim>\<open>FLBPluginExit\<close>; \<open>c\<close> is the number of checks of the running call that
  still find a live context before that cancel is seen (\<open>None\<close>: none arrives).
\<close>

definition ctx_poll :: "go_context \<Rightarrow> nat option \<Rightarrow> go_context" where
  "ctx_poll ctx c = (if ctx = Running \<and> c = Some 0 then Done Canceled else ctx)"

text \<open>
  \<^verbatim>\<open>theChannel <- msg\<close> in \<^verbatim>\<open>FLBPluginFlush\<close>. A send on a nil channel blocks, on a
  closed channel it panics; otherwise the message goes into the buffer when there is
  room, or to the user's \<^verbatim>\<open>Flush\<close> when it still receives, and the send blocks when
  neither is the case.
\<close>

definition send :: "Message \<Rightarrow> globals \<Rightarrow> outcome + globals" where
  "send m s =
     (case theChannel s of
        None \<Rightarrow> Inl Blocks
      | Some ch \<Rightarrow>
          if closed ch then Inl (Panics SendOnClosed)
          else if length (queue ch) < capacity ch
            then Inr (s\<lparr>theChannel := Some (ch\<lparr>queue := queue ch @ [m]\<rparr>)\<rparr>)
          else if flush_budget s \<noteq> Some 0
            then Inr (s\<lparr>flush_budget := tick (flush_budget s), delivered := delivered s @ [m]\<rparr>)
          else Inl Blocks)"

text \<open>
  The decode loop of \<^verbatim>\<open>FLBPluginFlush\<close>: each round first looks at \<^verbatim>\<open>runCtx.Done()\<close>,
  then decodes one entry, checks it and sends the message.
\<close>

fun flush_loop :: "string \<Rightarrow> nat option \<Rightarrow> decoded list \<Rightarrow> globals \<Rightarrow> outcome \<times> globals" where
  "flush_loop ctag c ds s =
     (case ctx_poll (runCtx s) c of
        NilContext \<Rightarrow> (Panics NilDereference, s)
      | Done e \<Rightarrow>
          (Return (if e \<noteq> Canceled then FLB_ERROR else FLB_OK), s\<lparr>runCtx := Done e\<rparr>)
      | Running \<Rightarrow>
          (case ds of
             [] \<Rightarrow> (Return FLB_OK, s)
           | DecodeErr # rest \<Rightarrow> (Return FLB_ERROR, s)
           | Entry entry # rest \<Rightarrow>
               (case entry_message ctag entry of
                  Inl e \<Rightarrow> (Return FLB_ERROR, s)
                | Inr m \<Rightarrow>
                    (case send m s of
                       Inl b \<Rightarrow> (b, s)
                     | Inr s' \<Rightarrow> flush_loop ctag (tick c) rest s'))))"

text \<open>
  \<^verbatim>\<open>once.Do(f)\<close>: \<open>f\<close> runs when no call of \<^verbatim>\<open>Do\<close> on this \<^verbatim>\<open>Once\<close> has run before.
\<close>

definition once_Do :: "(globals \<Rightarrow> globals) \<Rightarrow> globals \<Rightarrow> globals" where
  "once_Do f s = (if once s then s else (f s)\<lparr>once := True\<rparr>)"

text \<open>
  The start action of the flush entry point: a fresh context, an unbuffered channel,
  and one goroutine that runs the user's \<^verbatim>\<open>Flush\<close> on it.
\<close>

definition flush_start :: "OutputPlugin \<Rightarrow> globals \<Rightarrow> globals" where
  "flush_start out s =
     s\<lparr>runCtx := Running,
       theChannel := Some \<lparr>capacity = 0, queue = [], closed = False\<rparr>,
       flush_budget := (case out_flush out of Receives b \<Rightarrow> b | FailsAtOnce \<Rightarrow> Some 0),
       starts := starts s + 1\<rparr>"

text \<open>
  What the host and the codec library bring to one flush call: whether
  \<^verbatim>\<open>h.SetBytesExt\<close> returns an error, and when a concurrent cancel is seen.
\<close>

record flush_env =
  ext_fails :: bool
  cancel_in :: "nat option"

text \<open>
  \<^verbatim>\<open>func FLBPluginFlush(data unsafe.Pointer, clength C.int, ctag *C.char) int\<close>.
  \<open>dec\<close> is the decoder of the codec library: the results its \<^verbatim>\<open>Decode\<close> yields on
  the blob. The local \<^verbatim>\<open>err\<close> is written by the goroutine of the start action, so
  only the call that ran the start action can find it set, and only when the user's
  \<^verbatim>\<open>Flush\<close> has failed by then.
\<close>

definition FLBPluginFlush :: "('b \<Rightarrow> decoded list) \<Rightarrow> flush_env \<Rightarrow> 'b \<Rightarrow> string
    \<Rightarrow> globals \<Rightarrow> outcome \<times> globals" where
  "FLBPluginFlush dec env data ctag s =
     (if initWG s \<noteq> 0 then (Blocks, s)
      else case theOutput s of
        None \<Rightarrow> (Return FLB_RETRY, s)
      | Some out \<Rightarrow>
          let err = (\<not> once s \<and> out_flush out = FailsAtOnce);
              s1 = once_Do (flush_start out) s
          in if err then (Return FLB_ERROR, s1)
             else case ctx_poll (runCtx s1) (cancel_in env) of
                NilContext \<Rightarrow> (Panics NilDereference, s1)
              | Done e \<Rightarrow>
                  (Return (if e \<noteq> Canceled then FLB_ERROR else FLB_OK),
                   s1\<lparr>runCtx := Done e\<rparr>)
              | Running \<Rightarrow>
                  if ext_fails env then (Return FLB_ERROR, s1)
                  else flush_loop ctag (tick (cancel_in env)) (dec data) s1)"

section \<open>Input pipeline: the poll entry point\<close>

text \<open>
  The start action of the poll entry point: a fresh context, the primary channel of
  300000 slots, and the two goroutines (the sampling worker and the redistributor).
\<close>

definition input_start :: "globals \<Rightarrow> globals" where
  "input_start s =
     s\<lparr>runCtx := Running,
       theChannel := Some \<lparr>capacity = 300000, queue = [], closed = False\<rparr>,
       starts := starts s + 1\<rparr>"

text \<open>Why the drain loop returned before its end.\<close>

datatype drain_stop = ChannelClosed | EncodeFailed | ContextFailed | NilContextUsed

text \<open>
  The loop \<^verbatim>\<open>for loop := len(theChannel) > 0; loop; { select { ... } }\<close>, entered with
  \<open>loop\<close> true. The receive is ready when a message is buffered or the channel is
  closed, the \<^verbatim>\<open>Done\<close> case when the context is done, and \<^verbatim>\<open>default\<close> runs when neither
  is. When both are ready Go takes either: \<open>pick n\<close> says whether the \<^verbatim>\<open>Done\<close> case is
  taken with \<open>n\<close> messages buffered. The context is read as it is when the call is made.
  The result is the reason of an early return, if any, the bytes written to \<^verbatim>\<open>buf\<close>,
  and the messages left in the channel.
\<close>

fun drain_loop :: "(Message \<Rightarrow> 'e + 'b list) \<Rightarrow> (nat \<Rightarrow> bool) \<Rightarrow> go_context \<Rightarrow> bool
    \<Rightarrow> Message list \<Rightarrow> 'b list \<Rightarrow> drain_stop option \<times> 'b list \<times> Message list" where
  "drain_loop enc pick ctx cl [] buf =
     (case ctx of
        NilContext \<Rightarrow> (Some NilContextUsed, buf, [])
      | Running \<Rightarrow> (if cl then (Some ChannelClosed, buf, []) else (None, buf, []))
      | Done e \<Rightarrow>
          if cl \<and> \<not> pick 0 then (Some ChannelClosed, buf, [])
          else if e \<noteq> Canceled then (Some ContextFailed, buf, [])
          else (None, buf, []))"
| "drain_loop enc pick ctx cl (msg # q) buf =
     (case ctx of
        NilContext \<Rightarrow> (Some NilContextUsed, buf, msg # q)
      | Running \<Rightarrow>
          (case enc msg of
             Inl err \<Rightarrow> (Some EncodeFailed, buf, q)
           | Inr b \<Rightarrow> drain_loop enc pick ctx cl q (buf @ b))
      | Done e \<Rightarrow>
          if pick (length (msg # q)) then
            (if e \<noteq> Canceled then (Some ContextFailed, buf, msg # q)
             else (None, buf, msg # q))
          else
            (case enc msg of
               Inl err \<Rightarrow> (Some EncodeFailed, buf, q)
             | Inr b \<Rightarrow> drain_loop enc pick ctx cl q (buf @ b)))"

text \<open>
  \<^verbatim>\<open>func FLBPluginInputCallback(data *unsafe.Pointer, csize *C.size_t) int\<close>. \<open>enc\<close> is
  \<^verbatim>\<open>input.NewEncoder().Encode\<close> on \<^verbatim>\<open>[]any{t, msg.Record}\<close>. The second component of the
  result is what the call stores through \<^verbatim>\<open>data\<close> and \<^verbatim>\<open>csize\<close>: \<open>None\<close> when it stores
  nothing. \<^verbatim>\<open>buflock.Lock()\<close> blocks when an earlier call has returned with the lock
  held; an early return of this call leaves it held.
\<close>

definition FLBPluginInputCallback :: "(Message \<Rightarrow> 'e + 'b list) \<Rightarrow> (nat \<Rightarrow> bool) \<Rightarrow> globals
    \<Rightarrow> outcome \<times> 'b list option \<times> globals" where
  "FLBPluginInputCallback enc pick s =
     (if initWG s \<noteq> 0 then (Blocks, None, s)
      else case theInput s of
        None \<Rightarrow> (Return FLB_RETRY, None, s)
      | Some inp \<Rightarrow>
          let s1 = once_Do input_start s in
          if buflock s1 then (Blocks, None, s1)
          else case theChannel s1 of
            None \<Rightarrow> (Return FLB_OK, None, s1)
          | Some ch \<Rightarrow>
              let (stop, buf, rest) =
                    (if length (queue ch) > 0
                     then drain_loop enc pick (runCtx s1) (closed ch) (queue ch) []
                     else (None, [], queue ch));
                  s2 = s1\<lparr>theChannel := Some (ch\<lparr>queue := rest\<rparr>)\<rparr>
              in case stop of
                   Some NilContextUsed \<Rightarrow> (Panics NilDereference, None, s2\<lparr>buflock := True\<rparr>)
                 | Some r \<Rightarrow> (Return FLB_ERROR, None, s2\<lparr>buflock := True\<rparr>)
                 | None \<Rightarrow>
                     (Return FLB_OK, if length buf > 0 then Some buf else None, s2))"

section \<open>Calls of the poll and flush entry points in sequence\<close>

datatype 'b call = PollCall "nat \<Rightarrow> bool" | FlushCall flush_env 'b string

fun do_call :: "(Message \<Rightarrow> 'e + 'b list) \<Rightarrow> ('b list \<Rightarrow> decoded list) \<Rightarrow> 'b list call
    \<Rightarrow> globals \<Rightarrow> outcome \<times> globals" where
  "do_call enc dec (PollCall pick) s =
     (case FLBPluginInputCallback enc pick s of (r, out, s') \<Rightarrow> (r, s'))"
| "do_call enc dec (FlushCall env data ctag) s = FLBPluginFlush dec env data ctag s"

text \<open>A run of calls; a panic ends the process, a blocked call leaves the others to run.\<close>

fun run_calls :: "(Message \<Rightarrow> 'e + 'b list) \<Rightarrow> ('b list \<Rightarrow> decoded list) \<Rightarrow> 'b list call list
    \<Rightarrow> globals \<Rightarrow> globals" where
  "run_calls enc dec [] s = s"
| "run_calls enc dec (c # cs) s =
     (case do_call enc dec c s of
        (Panics p, s') \<Rightarrow> s'
      | (r, s') \<Rightarrow> run_calls enc dec cs s')"

text \<open>Whether a call gets as far as \<^verbatim>\<open>once.Do\<close>: init is over and its role is registered.\<close>

fun reaches_once :: "'b call \<Rightarrow> globals \<Rightarrow> bool" where
  "reaches_once (PollCall pick) s = (initWG s = 0 \<and> theInput s \<noteq> None)"
| "reaches_once (FlushCall env data ctag) s = (initWG s = 0 \<and> theOutput s \<noteq> None)"

section \<open>Configuration values\<close>

text \<open>\<^verbatim>\<open>strings.Contains(s, substr)\<close>\<close>

fun Contains :: "string \<Rightarrow> string \<Rightarrow> bool" where
  "Contains [] substr = (substr = [])"
| "Contains (c # cs) substr = (prefix substr (c # cs) \<or> Contains cs substr)"

text \<open>
  \<^verbatim>\<open>func unquote(s string) string\<close>. \<open>Unquote\<close> is \<^verbatim>\<open>strconv.Unquote\<close> of Go's library,
  \<open>None\<close> when it returns an error. The two literals are the backslash followed by
  \<open>n\<close>, and the double quote.
\<close>

definition unquote :: "(string \<Rightarrow> string option) \<Rightarrow> string \<Rightarrow> string" where
  "unquote Unquote s =
     (case Unquote s of
        Some tmp \<Rightarrow> tmp
      | None \<Rightarrow>
          if Contains s [CHR 0x5C, CHR ''n''] then
            (case Unquote ([CHR 0x22] @ s @ [CHR 0x22]) of
               Some tmp2 \<Rightarrow> tmp2
             | None \<Rightarrow> s)
          else s)"

text \<open>
  \<^verbatim>\<open>func (f *flbInputConfigLoader) String(key string) string\<close> and its twin of the output
  loader; \<open>conf\<close> is the host's lookup \<^verbatim>\<open>FLBPluginConfigKey(f.ptr, key)\<close>.
\<close>

definition String :: "(string \<Rightarrow> string option) \<Rightarrow> (string \<Rightarrow> string) \<Rightarrow> string \<Rightarrow> string" where
  "String Unquote conf key = unquote Unquote (conf key)"

section \<open>Binary codec\<close>

text \<open>
  Modelled from the spec: the Binary Codec. The encoder \<^verbatim>\<open>input.NewEncoder\<close>, the
  extension types \<^verbatim>\<open>input.FLBTime\<close> and \<^verbatim>\<open>bigEndianTime\<close>, and the MessagePack library
  they configure are not among the sources. The spec has a record encoded as a
  2-element sequence \<open>[time, fields]\<close>, \<open>time\<close> a fixed binary extension of big-endian
  seconds and nanoseconds as the host expects it (extension type 0, four bytes each),
  \<open>fields\<close> a mapping of strings to strings; on the way back keys are strings and
  values byte sequences. A blob is taken as the sequence of values it holds, in the
  data model of the wire format.
\<close>

datatype wire =
    WNil
  | WBool bool
  | WInt int
  | WRaw "byte list"
  | WExt byte "byte list"
  | WArray "wire list"
  | WMap "(wire \<times> wire) list"

text \<open>\<^verbatim>\<open>binary.BigEndian.PutUint32\<close> and \<^verbatim>\<open>binary.BigEndian.Uint32\<close>.\<close>

definition PutUint32 :: "32 word \<Rightarrow> byte list" where
  "PutUint32 v = [ucast (drop_bit 24 v), ucast (drop_bit 16 v), ucast (drop_bit 8 v), ucast v]"

fun Uint32 :: "byte list \<Rightarrow> 32 word option" where
  "Uint32 (b0 # b1 # b2 # b3 # bs) =
     Some (ucast b3 OR push_bit 8 (ucast b2) OR push_bit 16 (ucast b1) OR push_bit 24 (ucast b0))"
| "Uint32 bs = None"

text \<open>
  \<^verbatim>\<open>time.Unix(sec, nsec)\<close>: nanoseconds outside \<open>[0, 999999999]\<close> carry into the seconds.
\<close>

definition Unix :: "int \<Rightarrow> int \<Rightarrow> gotime" where
  "Unix sec nsec =
     (if nsec < 0 \<or> nsec \<ge> 1000000000
      then \<lparr>unix = sec + nsec div 1000000000, nanosecond = nsec mod 1000000000\<rparr>
      else \<lparr>unix = sec, nanosecond = nsec\<rparr>)"

text \<open>
  Modelled from the spec: the time extension. Writing takes the seconds and the
  nanoseconds of the time as unsigned 32-bit values, big-endian; reading takes a
  payload of eight bytes back to a time.
\<close>

definition WriteExt :: "gotime \<Rightarrow> byte list" where
  "WriteExt t = PutUint32 (word_of_int (unix t)) @ PutUint32 (word_of_int (nanosecond t))"

definition ReadExt :: "byte list \<Rightarrow> gotime option" where
  "ReadExt b =
     (if length b \<noteq> 8 then None
      else case (Uint32 b, Uint32 (drop 4 b)) of
        (Some sec, Some nsec) \<Rightarrow> Some (Unix (uint sec) (uint nsec))
      | _ \<Rightarrow> None)"


text \<open>
  Modelled from the spec: the encoding of \<^verbatim>\<open>[]any{t, msg.Record}\<close> by the drain path.
\<close>

definition encode_fields :: "(string \<times> string) list \<Rightarrow> wire" where
  "encode_fields rec = WMap (map (\<lambda>(k, v). (WRaw (bytes_of_string k), WRaw (bytes_of_string v))) rec)"

definition encode_message :: "Message \<Rightarrow> wire" where
  "encode_message m = WArray [WExt 0 (WriteExt (Time m)), encode_fields (Record m)]"

definition Encode :: "Message \<Rightarrow> unit + wire list" where
  "Encode m = Inr [encode_message m]"

text \<open>
  Modelled from the spec: decoding a value of the wire into \<^verbatim>\<open>any\<close>. A string is a byte
  slice as a value and a \<^verbatim>\<open>string\<close> as a key of a map; extension 0 is a time; the
  entries of a map are stored one after the other, a later one replacing an earlier
  one of the same key. \<open>None\<close> is a decode error.
\<close>

function (sequential) naked :: "wire \<Rightarrow> any option"
  and naked_list :: "wire list \<Rightarrow> any list option"
  and naked_map :: "(wire \<times> wire) list \<Rightarrow> (any \<times> any) list \<Rightarrow> (any \<times> any) list option" where
  "naked WNil = Some ANil"
| "naked (WBool b) = Some (ABool b)"
| "naked (WInt i) = Some (AInt i)"
| "naked (WRaw bs) = Some (ABytes bs)"
| "naked (WExt t bs) = (if t = 0 then map_option ATime (ReadExt bs) else None)"
| "naked (WArray ws) = map_option ASlice (naked_list ws)"
| "naked (WMap kvs) = map_option AMap (naked_map kvs [])"
| "naked_list [] = Some []"
| "naked_list (w # ws) =
     (case naked w of
        None \<Rightarrow> None
      | Some v \<Rightarrow> map_option ((#) v) (naked_list ws))"
| "naked_map [] acc = Some acc"
| "naked_map ((k, v) # kvs) acc =
     (case (case k of WRaw bs \<Rightarrow> Some (AString (string_of_bytes bs)) | _ \<Rightarrow> naked k) of
        None \<Rightarrow> None
      | Some key \<Rightarrow>
          (case naked v of
             None \<Rightarrow> None
           | Some val \<Rightarrow> naked_map kvs (AList.update key val acc)))"
  by pat_completeness auto
termination
  by (relation "measure (\<lambda>x. case x of
        Inl w \<Rightarrow> size w
      | Inr (Inl ws) \<Rightarrow> size_list size ws
      | Inr (Inr (kvs, acc)) \<Rightarrow> size_list (size_prod size size) kvs)") auto

text \<open>
  Modelled from the spec: the decoder on a blob, one result for each value it holds.
  Only a sequence (or nil) decodes into the \<^verbatim>\<open>[]any\<close> that \<^verbatim>\<open>FLBPluginFlush\<close> asks for.
\<close>

fun decode_entry :: "wire \<Rightarrow> decoded" where
  "decode_entry (WArray ws) = (case naked_list ws of None \<Rightarrow> DecodeErr | Some vs \<Rightarrow> Entry vs)"
| "decode_entry WNil = Entry []"
| "decode_entry w = DecodeErr"

definition Decoder :: "wire list \<Rightarrow> decoded list" where
  "Decoder blob = map decode_entry blob"

section \<open>Notions used in the statements\<close>

text \<open>A count-down that lasts for \<open>n\<close> more steps, and what is left of it after them.\<close>

fun enough :: "nat \<Rightarrow> nat option \<Rightarrow> bool" where
  "enough n None = True"
| "enough n (Some k) = (n \<le> k)"

fun spend :: "nat \<Rightarrow> nat option \<Rightarrow> nat option" where
  "spend n None = None"
| "spend n (Some k) = Some (k - n)"

text \<open>
  A decoded pair of a timestamp and a record, the entry the decoder yields for it, and
  the message the flush call makes of it: each key holds the string of its value, a
  later value of a key replacing an earlier one.
\<close>

type_synonym pair = "gotime \<times> (string \<times> byte list) list"

definition pair_entry :: "pair \<Rightarrow> decoded" where
  "pair_entry p = Entry [ATime (fst p), AMap (map (\<lambda>(k, v). (AString k, ABytes v)) (snd p))]"

definition rec_of :: "(string \<times> byte list) list \<Rightarrow> (string \<times> string) list" where
  "rec_of kvs = fold (\<lambda>(k, v). AList.update k (string_of_bytes v)) kvs []"

definition pair_message :: "string \<Rightarrow> pair \<Rightarrow> Message" where
  "pair_message ctag p = \<lparr>Time = fst p, Record = rec_of (snd p), tag = Some ctag\<rparr>"

text \<open>
  A record that fails to decode, in the words of the claim: the decoder reports an
  error, or the entry has not two elements, or its first element is no time, or its
  second no mapping, or a key is no string, or a value no byte sequence.
\<close>

fun is_string :: "any \<Rightarrow> bool" where
  "is_string (AString x) = True"
| "is_string v = False"

fun is_bytes :: "any \<Rightarrow> bool" where
  "is_bytes (ABytes x) = True"
| "is_bytes v = False"

fun is_time :: "any \<Rightarrow> bool" where
  "is_time (ATime x) = True"
| "is_time v = False"

fun bad_fields :: "any \<Rightarrow> bool" where
  "bad_fields (AMap kvs) = list_ex (\<lambda>(k, v). \<not> is_string k \<or> \<not> is_bytes v) kvs"
| "bad_fields v = True"

fun fails_to_decode :: "decoded \<Rightarrow> bool" where
  "fails_to_decode DecodeErr = True"
| "fails_to_decode (Entry e) = (length e \<noteq> 2 \<or> \<not> is_time (e ! 0) \<or> bad_fields (e ! 1))"

text \<open>
  The state in which a flush call finds a live output pipeline: init is over, an output
  plugin is registered and, when the pipeline was started before, it is not cancelled
  and its channel is the open unbuffered one; the user's \<^verbatim>\<open>Flush\<close> receives \<open>n\<close> more
  messages.
\<close>

definition flush_ready :: "nat \<Rightarrow> globals \<Rightarrow> bool" where
  "flush_ready n s \<longleftrightarrow>
     initWG s = 0 \<and>
     (case theOutput s of
        None \<Rightarrow> False
      | Some out \<Rightarrow>
          if once s
          then runCtx s = Running
            \<and> theChannel s = Some \<lparr>capacity = 0, queue = [], closed = False\<rparr>
            \<and> enough n (flush_budget s)
          else (case out_flush out of Receives b \<Rightarrow> enough n b | FailsAtOnce \<Rightarrow> False))"

text \<open>
  The state a flush call finds after the user's \<^verbatim>\<open>Flush\<close> has returned and before any
  cancel: init is over, an output plugin is registered, the pipeline was started, its
  context is live and its channel open, and nobody receives.
\<close>

definition flush_returned :: "globals \<Rightarrow> bool" where
  "flush_returned s \<longleftrightarrow>
     initWG s = 0 \<and> theOutput s \<noteq> None \<and> once s \<and> runCtx s = Running
     \<and> theChannel s = Some \<lparr>capacity = 0, queue = [], closed = False\<rparr>
     \<and> flush_budget s = Some 0"

text \<open>The state a flush call works on after its \<^verbatim>\<open>once.Do\<close>.\<close>

definition started_state :: "globals \<Rightarrow> globals" where
  "started_state s = once_Do (flush_start (the (theOutput s))) s"

section \<open>Scenarios\<close>

text \<open>
  The redistributor's \<^verbatim>\<open>theChannel <- msg\<close>: a message enters the primary channel when
  there is room.
\<close>

definition redistribute :: "Message \<Rightarrow> globals \<Rightarrow> globals" where
  "redistribute msg s =
     (case theChannel s of
        None \<Rightarrow> s
      | Some ch \<Rightarrow>
          if length (queue ch) < capacity ch
          then s\<lparr>theChannel := Some (ch\<lparr>queue := queue ch @ [msg]\<rparr>)\<rparr>
          else s)"

text \<open>
  A process that has registered an output plugin and whose host has called register
  and init; and the same for an input plugin.
\<close>

definition output_state :: "OutputPlugin \<Rightarrow> globals" where
  "output_state out =
     (case RegisterOutput ''out'' ''an output'' out initial of
        Inl p \<Rightarrow> initial
      | Inr s \<Rightarrow> snd (FLBPluginInit False (snd (FLBPluginRegister FLB_OK s))))"

definition input_state :: "InputPlugin \<Rightarrow> globals" where
  "input_state inp =
     (case RegisterInput ''in'' ''an input'' inp initial of
        Inl p \<Rightarrow> initial
      | Inr s \<Rightarrow> snd (FLBPluginInit False (snd (FLBPluginRegister FLB_OK s))))"

text \<open>The calm environment of a flush call: the codec is set up, no cancel arrives.\<close>

definition calm :: flush_env where
  "calm = \<lparr>ext_fails = False, cancel_in = None\<rparr>"

text \<open>Two timestamps and the two pairs of the second end-to-end scenario.\<close>

definition t1 :: gotime where
  "t1 = \<lparr>unix = 1700000000, nanosecond = 5\<rparr>"

definition t2 :: gotime where
  "t2 = \<lparr>unix = 1700000001, nanosecond = 999999999\<rparr>"

definition two_pairs :: "pair list" where
  "two_pairs = [(t1, [(''a'', [0x62])]), (t2, [(''c'', [0x64])])]"

text \<open>
  An output pipeline whose user's \<^verbatim>\<open>Flush\<close> has returned without error: the first flush
  call, with an empty blob, has started it and it received nothing.
\<close>

definition stream_ended :: globals where
  "stream_ended =
     snd (FLBPluginFlush (\<lambda>d. d) calm [] ''mytag''
       (output_state \<lparr>out_init_fails = False, out_flush = Receives (Some 0)\<rparr>))"

text \<open>
  An input pipeline that was polled once, which started it, and into whose primary
  channel the redistributor has since moved two messages.
\<close>

definition msg1 :: Message where
  "msg1 = \<lparr>Time = t1, Record = [(''x'', ''1'')], tag = None\<rparr>"

definition msg2 :: Message where
  "msg2 = \<lparr>Time = t2, Record = [(''x'', ''2'')], tag = None\<rparr>"

definition buffered :: globals where
  "buffered =
     redistribute msg2 (redistribute msg1
       (snd (snd (FLBPluginInputCallback Encode (\<lambda>n. False)
          (input_state \<lparr>in_init_fails = False\<rparr>)))))"

text \<open>An encoder that fails on the second message.\<close>

definition failing_enc :: "Message \<Rightarrow> unit + wire list" where
  "failing_enc m = (if m = msg2 then Inl () else Encode m)"

text \<open>
  Three configuration values, a quoted literal, a value with an escaped newline and a
  plain word, and what \<^verbatim>\<open>strconv.Unquote\<close> returns on the strings that \<^verbatim>\<open>unquote\<close> passes
  to it for them.
\<close>

definition quoted_value :: string where
  "quoted_value = [CHR 0x22, CHR ''x'', CHR 0x22]"

definition escaped_value :: string where
  "escaped_value = [CHR ''a'', CHR 0x5C, CHR ''n'', CHR ''b'']"

definition Unquote_table :: "string \<Rightarrow> string option" where
  "Unquote_table s =
     (if s = quoted_value then Some ''x''
      else if s = [CHR 0x22] @ escaped_value @ [CHR 0x22] then Some [CHR ''a'', CHR 0x0A, CHR ''b'']
      else None)"

definition conf_table :: "string \<Rightarrow> string" where
  "conf_table key =
     (if key = ''quoted'' then quoted_value
      else if key = ''escaped'' then escaped_value
      else ''plain'')"

section \<open>Properties\<close>

lemma register_sets_flag: "register r s = Inr s' \<Longrightarrow> atomicUint32 s' = 1"
  by (cases r) (auto simp: RegisterInput_def RegisterOutput_def mustOnce_def split: if_splits)

lemma register_flag_panics: "atomicUint32 s = 1 \<Longrightarrow> register r s = Inl AlreadyRegistered"
  by (cases r) (auto simp: RegisterInput_def RegisterOutput_def mustOnce_def)

lemma register_initial:
  "\<exists>s1. register r initial = Inr s1 \<and> registrations s1 = 1"
  by (cases r) (auto simp: RegisterInput_def RegisterOutput_def mustOnce_def initial_def
      registrations_def)

text \<open>
  C3. Of any two registration calls made in one process, in any combination of roles,
  the first succeeds and leaves exactly one registration, and the second panics; so
  does every run of two or more registration calls.
\<close>

theorem double_registration_panics:
  "(\<exists>s1. register r1 initial = Inr s1 \<and> registrations s1 = 1
        \<and> register r2 s1 = Inl AlreadyRegistered)
   \<and> register_all (r1 # r2 # rs) initial = Inl AlreadyRegistered"
proof -
  obtain s1 where s1: "register r1 initial = Inr s1" "registrations s1 = 1"
    using register_initial by blast
  have p: "register r2 s1 = Inl AlreadyRegistered"
    using s1(1) by (intro register_flag_panics register_sets_flag)
  show ?thesis using s1 p by simp
qed

text \<open>
  C10. \<^verbatim>\<open>Tag()\<close> of a message whose tag pointer is nil is the empty string, and of a
  message whose tag is set it is that string: every message has a tag reading.
\<close>

theorem Tag_total:
  "Tag (m\<lparr>tag := None\<rparr>) = [] \<and> Tag (m\<lparr>tag := Some t\<rparr>) = t"
  by (simp add: Tag_def)


subsection \<open>The flush entry point\<close>

declare flush_loop.simps [simp del]

lemma tick_spend: "tick c = spend 1 c"
  by (cases c) simp_all

lemma spend_spend: "spend a (spend b c) = spend (b + a) c"
  by (cases c) simp_all

lemma enough_Suc: "enough (Suc n) c \<Longrightarrow> c \<noteq> Some 0 \<and> enough n (tick c)"
  by (cases c) auto

lemma ctx_poll_live: "c \<noteq> Some 0 \<Longrightarrow> ctx_poll Running c = Running"
  by (simp add: ctx_poll_def)

lemma build_rec_fields:
  "build_rec (map (\<lambda>(k, v). (AString k, ABytes v)) kvs) rec
     = Inr (fold (\<lambda>(k, v). AList.update k (string_of_bytes v)) kvs rec)"
  by (induction kvs arbitrary: rec) auto

lemma entry_message_pair:
  "pair_entry p = Entry e \<Longrightarrow> entry_message ctag e = Inr (pair_message ctag p)"
  by (cases p) (auto simp: pair_entry_def entry_message_def pair_message_def rec_of_def
      build_rec_fields)

lemma send_live:
  assumes "theChannel s = Some \<lparr>capacity = 0, queue = [], closed = False\<rparr>"
    and "flush_budget s \<noteq> Some 0"
  shows "send m s = Inr (s\<lparr>flush_budget := tick (flush_budget s), delivered := delivered s @ [m]\<rparr>)"
  using assms by (simp add: send_def)

lemma send_dead:
  assumes "theChannel s = Some \<lparr>capacity = 0, queue = [], closed = False\<rparr>"
    and "flush_budget s = Some 0"
  shows "send m s = Inl Blocks"
  using assms by (simp add: send_def)

lemma flush_loop_pairs:
  assumes "runCtx s = Running"
    and "theChannel s = Some \<lparr>capacity = 0, queue = [], closed = False\<rparr>"
    and "enough (length prs) (flush_budget s)"
    and "enough (length prs) c"
  shows "flush_loop ctag c (map pair_entry prs @ rest) s
     = flush_loop ctag (spend (length prs) c) rest
         (s\<lparr>flush_budget := spend (length prs) (flush_budget s),
            delivered := delivered s @ map (pair_message ctag) prs\<rparr>)"
  using assms
proof (induction prs arbitrary: s c)
  case Nil
  have "spend 0 x = x" for x by (cases x) simp_all
  then show ?case by simp
next
  case (Cons p prs)
  obtain e where e: "pair_entry p = Entry e" by (simp add: pair_entry_def)
  have c: "c \<noteq> Some 0" "enough (length prs) (tick c)"
    using Cons.prems(4) enough_Suc by auto
  have b: "flush_budget s \<noteq> Some 0" "enough (length prs) (tick (flush_budget s))"
    using Cons.prems(3) enough_Suc by auto
  let ?s = "s\<lparr>flush_budget := tick (flush_budget s), delivered := delivered s @ [pair_message ctag p]\<rparr>"
  have "flush_loop ctag c (map pair_entry (p # prs) @ rest) s
      = flush_loop ctag (tick c) (map pair_entry prs @ rest) ?s"
    by (subst flush_loop.simps)
      (simp add: Cons.prems(1,2) c(1) b(1) ctx_poll_live e entry_message_pair [OF e] send_live)
  also have "\<dots> = flush_loop ctag (spend (length prs) (tick c)) rest
         (?s\<lparr>flush_budget := spend (length prs) (flush_budget ?s),
            delivered := delivered ?s @ map (pair_message ctag) prs\<rparr>)"
    by (rule Cons.IH) (simp_all add: Cons.prems(1,2) c b)
  finally show ?case
    by (simp add: tick_spend spend_spend)
qed

lemma build_rec_bad:
  "list_ex (\<lambda>(k, v). \<not> is_string k \<or> \<not> is_bytes v) kvs \<Longrightarrow> \<exists>err. build_rec kvs rec = Inl err"
proof (induction kvs arbitrary: rec)
  case Nil
  then show ?case by simp
next
  case (Cons kv kvs)
  obtain k v where kv: "kv = (k, v)" by (cases kv)
  show ?case
  proof (cases "is_string k \<and> is_bytes v")
    case True
    then obtain key val where "k = AString key" "v = ABytes val"
      by (cases k; cases v) simp_all
    with Cons kv True show ?thesis by simp
  next
    case False
    then show ?thesis unfolding kv by (cases k; cases v) simp_all
  qed
qed

lemma build_rec_good:
  "\<not> list_ex (\<lambda>(k, v). \<not> is_string k \<or> \<not> is_bytes v) kvs \<Longrightarrow> \<exists>r. build_rec kvs rec = Inr r"
proof (induction kvs arbitrary: rec)
  case Nil
  then show ?case by simp
next
  case (Cons kv kvs)
  obtain k v where kv: "kv = (k, v)" by (cases kv)
  with Cons.prems obtain key val where "k = AString key" "v = ABytes val"
    by (cases k; cases v) simp_all
  with Cons kv show ?case by simp
qed

lemma entry_message_fails:
  "fails_to_decode (Entry e) \<longleftrightarrow> (\<exists>err. entry_message ctag e = Inl err)"
proof (cases "length e = 2")
  case False
  then show ?thesis by (simp add: entry_message_def)
next
  case True
  show ?thesis
  proof (cases "e ! 0")
    case (ATime ft)
    show ?thesis
    proof (cases "e ! 1")
      case (AMap recVal)
      show ?thesis
      proof (cases "list_ex (\<lambda>(k, v). \<not> is_string k \<or> \<not> is_bytes v) recVal")
        case bad: True
        then have "recVal \<noteq> []" by auto
        with bad build_rec_bad [OF bad, of "[]"] show ?thesis
          using True ATime AMap by (auto simp: entry_message_def)
      next
        case good: False
        with build_rec_good [OF good, of "[]"] show ?thesis
          using True ATime AMap by (auto simp: entry_message_def)
      qed
    qed (use True ATime in \<open>simp_all add: entry_message_def\<close>)
  qed (use True in \<open>simp_all add: entry_message_def\<close>)
qed

lemma flush_loop_end:
  "runCtx s = Running \<Longrightarrow> c \<noteq> Some 0 \<Longrightarrow> flush_loop ctag c [] s = (Return FLB_OK, s)"
  by (subst flush_loop.simps) (simp add: ctx_poll_def)

lemma flush_loop_bad:
  assumes "runCtx s = Running" "c \<noteq> Some 0" "fails_to_decode bad"
  shows "flush_loop ctag c (bad # rest) s = (Return FLB_ERROR, s)"
proof (cases bad)
  case DecodeErr
  then show ?thesis using assms by (subst flush_loop.simps) (simp add: ctx_poll_def)
next
  case (Entry e)
  with assms(3) obtain err where "entry_message ctag e = Inl err"
    using entry_message_fails by blast
  then show ?thesis using assms Entry by (subst flush_loop.simps) (simp add: ctx_poll_def)
qed

lemma flush_loop_blocks:
  assumes "runCtx s = Running" "c \<noteq> Some 0"
    and "theChannel s = Some \<lparr>capacity = 0, queue = [], closed = False\<rparr>"
    and "flush_budget s = Some 0"
  shows "flush_loop ctag c (pair_entry p # rest) s = (Blocks, s)"
proof -
  obtain e where e: "pair_entry p = Entry e" by (simp add: pair_entry_def)
  show ?thesis using assms
    by (subst flush_loop.simps)
      (simp add: ctx_poll_def e entry_message_pair [OF e] send_dead)
qed

lemma flush_ready_call:
  assumes "flush_ready n s" "\<not> ext_fails env" "cancel_in env \<noteq> Some 0"
  shows "FLBPluginFlush dec env data ctag s
           = flush_loop ctag (tick (cancel_in env)) (dec data) (started_state s)"
    and "runCtx (started_state s) = Running"
    and "theChannel (started_state s) = Some \<lparr>capacity = 0, queue = [], closed = False\<rparr>"
    and "enough n (flush_budget (started_state s))"
    and "delivered (started_state s) = delivered s"
proof -
  from assms(1) obtain out where out: "theOutput s = Some out" and i: "initWG s = 0"
    by (auto simp: flush_ready_def split: option.splits)
  have "FLBPluginFlush dec env data ctag s
           = flush_loop ctag (tick (cancel_in env)) (dec data) (started_state s)
    \<and> runCtx (started_state s) = Running
    \<and> theChannel (started_state s) = Some \<lparr>capacity = 0, queue = [], closed = False\<rparr>
    \<and> enough n (flush_budget (started_state s))
    \<and> delivered (started_state s) = delivered s"
  proof (cases "once s")
    case True
    with assms out i show ?thesis
      by (simp add: FLBPluginFlush_def once_Do_def flush_ready_def ctx_poll_def started_state_def)
  next
    case False
    with assms(1) out obtain b where b: "out_flush out = Receives b" "enough n b"
      by (auto simp: flush_ready_def split: flush_behaviour.splits)
    with assms out i False show ?thesis
      by (simp add: FLBPluginFlush_def once_Do_def flush_start_def ctx_poll_def started_state_def)
  qed
  then show "FLBPluginFlush dec env data ctag s
           = flush_loop ctag (tick (cancel_in env)) (dec data) (started_state s)"
    and "runCtx (started_state s) = Running"
    and "theChannel (started_state s) = Some \<lparr>capacity = 0, queue = [], closed = False\<rparr>"
    and "enough n (flush_budget (started_state s))"
    and "delivered (started_state s) = delivered s"
    by simp_all
qed

text \<open>
  C2. A flush call on a live output pipeline whose blob decodes into a sequence of
  (timestamp, record) pairs returns OK, and the user's \<^verbatim>\<open>Flush\<close> has received, after
  what it had received before, one message for each pair, in the order of the pairs
  and each with the tag of the call.
\<close>

theorem flush_enqueues_in_order:
  assumes "flush_ready (length prs) s" and "\<not> ext_fails env"
    and "enough (length prs + 2) (cancel_in env)"
    and "dec data = map pair_entry prs"
  shows "fst (FLBPluginFlush dec env data ctag s) = Return FLB_OK
       \<and> delivered (snd (FLBPluginFlush dec env data ctag s))
           = delivered s @ map (pair_message ctag) prs"
proof -
  have c0: "cancel_in env \<noteq> Some 0" and c1: "enough (Suc (length prs)) (tick (cancel_in env))"
    using assms(3) enough_Suc [of "Suc (length prs)" "cancel_in env"] by auto
  have c2: "enough (length prs) (tick (cancel_in env))"
    and c3: "spend (length prs) (tick (cancel_in env)) \<noteq> Some 0"
    using c1 by (cases "cancel_in env"; auto)+
  note s1 = flush_ready_call [OF assms(1,2) c0]
  let ?s' = "(started_state s)\<lparr>flush_budget := spend (length prs) (flush_budget (started_state s)),
      delivered := delivered (started_state s) @ map (pair_message ctag) prs\<rparr>"
  have "FLBPluginFlush dec env data ctag s
      = flush_loop ctag (tick (cancel_in env)) (map pair_entry prs @ []) (started_state s)"
    using s1(1) [of dec data ctag] by (simp add: assms(4))
  also have "\<dots> = flush_loop ctag (spend (length prs) (tick (cancel_in env))) [] ?s'"
    by (rule flush_loop_pairs [OF s1(2,3,4) c2])
  also have "\<dots> = (Return FLB_OK, ?s')"
    by (rule flush_loop_end) (simp_all add: s1(2) c3)
  finally show ?thesis by (simp add: s1(5))
qed

text \<open>
  C4. A flush call on a live output pipeline whose blob holds a record that fails to
  decode, after some pairs that decode, returns ERROR, and the messages of those pairs
  have been received by the user's \<^verbatim>\<open>Flush\<close> and stay so.
\<close>

theorem flush_decode_error:
  assumes "flush_ready (length prs) s" and "\<not> ext_fails env"
    and "enough (length prs + 2) (cancel_in env)"
    and "dec data = map pair_entry prs @ bad # rest" and "fails_to_decode bad"
  shows "fst (FLBPluginFlush dec env data ctag s) = Return FLB_ERROR
       \<and> delivered (snd (FLBPluginFlush dec env data ctag s))
           = delivered s @ map (pair_message ctag) prs"
proof -
  have c0: "cancel_in env \<noteq> Some 0" and c1: "enough (Suc (length prs)) (tick (cancel_in env))"
    using assms(3) enough_Suc [of "Suc (length prs)" "cancel_in env"] by auto
  have c2: "enough (length prs) (tick (cancel_in env))"
    and c3: "spend (length prs) (tick (cancel_in env)) \<noteq> Some 0"
    using c1 by (cases "cancel_in env"; auto)+
  note s1 = flush_ready_call [OF assms(1,2) c0]
  let ?s' = "(started_state s)\<lparr>flush_budget := spend (length prs) (flush_budget (started_state s)),
      delivered := delivered (started_state s) @ map (pair_message ctag) prs\<rparr>"
  have "FLBPluginFlush dec env data ctag s
      = flush_loop ctag (tick (cancel_in env)) (map pair_entry prs @ bad # rest) (started_state s)"
    using s1(1) [of dec data ctag] by (simp add: assms(4))
  also have "\<dots> = flush_loop ctag (spend (length prs) (tick (cancel_in env))) (bad # rest) ?s'"
    by (rule flush_loop_pairs [OF s1(2,3,4) c2])
  also have "\<dots> = (Return FLB_ERROR, ?s')"
    by (rule flush_loop_bad) (simp_all add: s1(2) c3 assms(5))
  finally show ?thesis by (simp add: s1(5))
qed

lemma output_state_eval:
  "output_state out = initial\<lparr>atomicUint32 := 1, theName := ''out'', theDesc := ''an output'',
     theOutput := Some out, registerWG := 0, initWG := 0, unregister := Some Output\<rparr>"
  by (simp add: output_state_def RegisterOutput_def mustOnce_def initial_def
      FLBPluginRegister_def FLBPluginInit_def wg_done_def)

lemma flush_ready_output_state:
  "flush_ready n (output_state \<lparr>out_init_fails = False, out_flush = Receives None\<rparr>)"
  by (simp add: output_state_eval flush_ready_def initial_def)

lemma two_pairs_messages:
  "map (pair_message ''mytag'') two_pairs
      = [\<lparr>Time = t1, Record = [(''a'', ''b'')], tag = Some ''mytag''\<rparr>,
         \<lparr>Time = t2, Record = [(''c'', ''d'')], tag = Some ''mytag''\<rparr>]"
  by code_simp

text \<open>
  The second end-to-end scenario: a blob of two records and the tag \<open>mytag\<close>.
\<close>

theorem flush_enqueues_in_order_witness:
  "flush_ready (length two_pairs) (output_state \<lparr>out_init_fails = False, out_flush = Receives None\<rparr>)
   \<and> \<not> ext_fails calm \<and> enough (length two_pairs + 2) (cancel_in calm)
   \<and> fst (FLBPluginFlush (map pair_entry) calm two_pairs ''mytag''
        (output_state \<lparr>out_init_fails = False, out_flush = Receives None\<rparr>)) = Return FLB_OK
   \<and> delivered (snd (FLBPluginFlush (map pair_entry) calm two_pairs ''mytag''
        (output_state \<lparr>out_init_fails = False, out_flush = Receives None\<rparr>)))
      = [\<lparr>Time = t1, Record = [(''a'', ''b'')], tag = Some ''mytag''\<rparr>,
         \<lparr>Time = t2, Record = [(''c'', ''d'')], tag = Some ''mytag''\<rparr>]"
proof -
  let ?s = "output_state \<lparr>out_init_fails = False, out_flush = Receives None\<rparr>"
  have r: "flush_ready (length two_pairs) ?s" by (rule flush_ready_output_state)
  have e: "\<not> ext_fails calm" "enough (length two_pairs + 2) (cancel_in calm)"
    by (simp_all add: calm_def)
  have d: "delivered ?s = []" by (simp add: output_state_eval initial_def)
  show ?thesis
    using flush_enqueues_in_order [OF r e, of "map pair_entry" two_pairs "''mytag''"] r e
    by (simp add: d two_pairs_messages)
qed

text \<open>
  The third end-to-end scenario: three records, the second with an integer where the
  time should be.
\<close>

theorem flush_decode_error_witness:
  "flush_ready (length [(t1, [(''a'', [0x62])])])
     (output_state \<lparr>out_init_fails = False, out_flush = Receives None\<rparr>)
   \<and> \<not> ext_fails calm \<and> enough (length [(t1, [(''a'', [0x62 :: byte])])] + 2) (cancel_in calm)
   \<and> fails_to_decode (Entry [AInt 7, AMap []])
   \<and> fst (FLBPluginFlush (\<lambda>d. d) calm
        [pair_entry (t1, [(''a'', [0x62])]), Entry [AInt 7, AMap []], pair_entry (t2, [(''c'', [0x64])])]
        ''mytag'' (output_state \<lparr>out_init_fails = False, out_flush = Receives None\<rparr>))
      = Return FLB_ERROR
   \<and> delivered (snd (FLBPluginFlush (\<lambda>d. d) calm
        [pair_entry (t1, [(''a'', [0x62])]), Entry [AInt 7, AMap []], pair_entry (t2, [(''c'', [0x64])])]
        ''mytag'' (output_state \<lparr>out_init_fails = False, out_flush = Receives None\<rparr>)))
      = [\<lparr>Time = t1, Record = [(''a'', ''b'')], tag = Some ''mytag''\<rparr>]"
proof -
  let ?s = "output_state \<lparr>out_init_fails = False, out_flush = Receives None\<rparr>"
  let ?prs = "[(t1, [(''a'', [0x62 :: byte])])]"
  have r: "flush_ready (length ?prs) ?s" by (rule flush_ready_output_state)
  have e: "\<not> ext_fails calm" "enough (length ?prs + 2) (cancel_in calm)"
    by (simp_all add: calm_def)
  have d: "delivered ?s = []" by (simp add: output_state_eval initial_def)
  have b: "fails_to_decode (Entry [AInt 7, AMap []])" by simp
  have m: "pair_message ''mytag'' (t1, [(''a'', [0x62])])
     = \<lparr>Time = t1, Record = [(''a'', ''b'')], tag = Some ''mytag''\<rparr>"
    by code_simp
  have l: "[pair_entry (t1, [(''a'', [0x62])]), Entry [AInt 7, AMap []], pair_entry (t2, [(''c'', [0x64])])]
     = map pair_entry ?prs @ Entry [AInt 7, AMap []] # [pair_entry (t2, [(''c'', [0x64])])]"
    by simp
  show ?thesis
    using flush_decode_error [where dec = "\<lambda>d. d" and ctag = "''mytag''", OF r e l b] r e b
    by (simp add: d m)
qed

lemma good_entry_is_pair:
  assumes "\<not> fails_to_decode d"
  shows "\<exists>p. d = pair_entry p"
proof -
  from assms obtain e where d: "d = Entry e" by (cases d) simp_all
  with assms have len: "length e = 2" and t: "is_time (e ! 0)" and f: "\<not> bad_fields (e ! 1)"
    by simp_all
  from len obtain x y where e: "e = [x, y]"
    by (cases e; cases "tl e") auto
  from t e obtain ft where x: "x = ATime ft" by (cases x) simp_all
  from f e obtain kvs where y: "y = AMap kvs"
    and g: "\<not> list_ex (\<lambda>(k, v). \<not> is_string k \<or> \<not> is_bytes v) kvs"
    by (cases y) simp_all
  from g have "\<exists>r. kvs = map (\<lambda>(k, v). (AString k, ABytes v)) r"
  proof (induction kvs)
    case Nil
    then show ?case by simp
  next
    case (Cons kv kvs)
    obtain k v where kv: "kv = (k, v)" by (cases kv)
    with Cons.prems obtain key val where kk: "k = AString key" "v = ABytes val"
      by (cases k; cases v) simp_all
    from Cons obtain r where "kvs = map (\<lambda>(k, v). (AString k, ABytes v)) r" by auto
    then have "kv # kvs = map (\<lambda>(k, v). (AString k, ABytes v)) ((key, val) # r)"
      by (simp add: kv kk)
    then show ?case by (rule exI)
  qed
  then obtain r where "kvs = map (\<lambda>(k, v). (AString k, ABytes v)) r" ..
  then have "d = pair_entry (ft, r)" by (simp add: d e x y pair_entry_def)
  then show ?thesis ..
qed

lemma flush_returned_call:
  assumes "flush_returned s" "\<not> ext_fails env" "cancel_in env \<noteq> Some 0"
  shows "FLBPluginFlush dec env data ctag s = flush_loop ctag (tick (cancel_in env)) (dec data) s"
  using assms
  by (auto simp: flush_returned_def FLBPluginFlush_def once_Do_def ctx_poll_def)

text \<open>
  C5 (amended). A flush call made after the user's \<^verbatim>\<open>Flush\<close> has returned and before any
  cancel does not run the start action again and leaves the state as it is. It returns
  OK when the blob holds no entry and ERROR when the first entry fails to decode; when
  the first entry decodes, the call blocks at the send, for nobody receives.
\<close>

theorem flush_after_stream_end:
  assumes "flush_returned s" and "\<not> ext_fails env" and "enough 2 (cancel_in env)"
  shows "FLBPluginFlush dec env data ctag s =
     ((case dec data of
         [] \<Rightarrow> Return FLB_OK
       | d # rest \<Rightarrow> if fails_to_decode d then Return FLB_ERROR else Blocks), s)"
proof -
  have c0: "cancel_in env \<noteq> Some 0" and c1: "tick (cancel_in env) \<noteq> Some 0"
    using assms(3) by (cases "cancel_in env"; auto)+
  have r: "runCtx s = Running"
    "theChannel s = Some \<lparr>capacity = 0, queue = [], closed = False\<rparr>" "flush_budget s = Some 0"
    using assms(1) by (simp_all add: flush_returned_def)
  note call = flush_returned_call [OF assms(1,2) c0, of dec data ctag]
  show ?thesis
  proof (cases "dec data")
    case Nil
    then show ?thesis using call by (simp add: flush_loop_end [OF r(1) c1])
  next
    case (Cons d rest)
    show ?thesis
    proof (cases "fails_to_decode d")
      case True
      then show ?thesis using call Cons by (simp add: flush_loop_bad [OF r(1) c1])
    next
      case False
      then obtain p where "d = pair_entry p" using good_entry_is_pair by blast
      then show ?thesis using call Cons False
        by (simp add: flush_loop_blocks [OF r(1) c1 r(2,3)])
    qed
  qed
qed

lemma stream_ended_eval:
  "stream_ended = initial\<lparr>atomicUint32 := 1, theName := ''out'', theDesc := ''an output'',
     theOutput := Some \<lparr>out_init_fails = False, out_flush = Receives (Some 0)\<rparr>,
     registerWG := 0, initWG := 0, once := True, runCtx := Running,
     theChannel := Some \<lparr>capacity = 0, queue = [], closed = False\<rparr>,
     unregister := Some Output, starts := 1, flush_budget := Some 0\<rparr>"
  by (simp add: stream_ended_def output_state_eval FLBPluginFlush_def initial_def once_Do_def
      flush_start_def calm_def ctx_poll_def flush_loop_end)

lemma flush_returned_stream_ended: "flush_returned stream_ended"
  by (simp add: stream_ended_eval flush_returned_def initial_def)

text \<open>
  C5 as stated fails: after the stream has ended, a flush call with one well-formed
  record does not return OK, it blocks.
\<close>

theorem flush_after_stream_end_counterexample:
  "flush_returned stream_ended
   \<and> fst (FLBPluginFlush (\<lambda>d. d) calm [pair_entry (t1, [(''a'', [0x62])])] ''mytag'' stream_ended)
       = Blocks
   \<and> fst (FLBPluginFlush (\<lambda>d. d) calm [pair_entry (t1, [(''a'', [0x62])])] ''mytag'' stream_ended)
       \<noteq> Return FLB_OK"
proof -
  have c: "cancel_in calm \<noteq> Some 0" "tick (cancel_in calm) \<noteq> Some 0" "\<not> ext_fails calm"
    by (simp_all add: calm_def)
  have r: "runCtx stream_ended = Running"
    "theChannel stream_ended = Some \<lparr>capacity = 0, queue = [], closed = False\<rparr>"
    "flush_budget stream_ended = Some 0"
    by (simp_all add: stream_ended_eval initial_def)
  have "FLBPluginFlush (\<lambda>d. d) calm [pair_entry (t1, [(''a'', [0x62])])] ''mytag'' stream_ended
      = (Blocks, stream_ended)"
    by (simp add: flush_returned_call [OF flush_returned_stream_ended c(3,1)]
        flush_loop_blocks [OF r(1) c(2) r(2,3)])
  then show ?thesis by (simp add: flush_returned_stream_ended)
qed

theorem flush_after_stream_end_witness:
  "flush_returned stream_ended \<and> \<not> ext_fails calm \<and> enough 2 (cancel_in calm)
   \<and> FLBPluginFlush (\<lambda>d. d) calm [] ''mytag'' stream_ended = (Return FLB_OK, stream_ended)
   \<and> FLBPluginFlush (\<lambda>d. d) calm [Entry [AInt 7, AMap []]] ''mytag'' stream_ended
       = (Return FLB_ERROR, stream_ended)"
proof -
  have c: "\<not> ext_fails calm" "enough 2 (cancel_in calm)" by (simp_all add: calm_def)
  show ?thesis
    using flush_after_stream_end [OF flush_returned_stream_ended c, of "\<lambda>d. d" "[]" "''mytag''"]
      flush_after_stream_end [OF flush_returned_stream_ended c, of "\<lambda>d. d"
        "[Entry [AInt 7, AMap []]]" "''mytag''"]
      flush_returned_stream_ended c
    by simp
qed

subsection \<open>Register and init without a plugin\<close>

text \<open>
  C6 as stated fails: with no plugin registered, register and init return RETRY, not
  ERROR.
\<close>

theorem no_plugin_is_retry_counterexample:
  "theInput initial = None \<and> theOutput initial = None
   \<and> fst (FLBPluginRegister FLB_OK initial) = Return FLB_RETRY
   \<and> fst (FLBPluginRegister FLB_OK initial) \<noteq> Return FLB_ERROR
   \<and> fst (FLBPluginInit False (snd (FLBPluginRegister FLB_OK initial))) = Return FLB_RETRY"
  by (simp add: FLBPluginRegister_def FLBPluginInit_def initial_def wg_done_def)

text \<open>
  C6 (amended). With no plugin registered, a call of register or init that returns,
  returns RETRY: register returns unless its wait group is used up, init returns once
  register is over and unless its own wait group is used up.
\<close>

theorem no_plugin_is_retry:
  assumes "theInput s = None" and "theOutput s = None"
  shows "fst (FLBPluginRegister host s)
           = (if 0 < registerWG s then Return FLB_RETRY else Panics NegativeWaitGroup)
       \<and> fst (FLBPluginInit cmetrics_fails s)
           = (if registerWG s \<noteq> 0 then Blocks
              else if 0 < initWG s then Return FLB_RETRY
              else Panics NegativeWaitGroup)"
  using assms by (simp add: FLBPluginRegister_def FLBPluginInit_def wg_done_def)

theorem no_plugin_is_retry_witness:
  "theInput initial = None \<and> theOutput initial = None
   \<and> fst (FLBPluginRegister FLB_OK initial) = Return FLB_RETRY
   \<and> fst (FLBPluginInit False (initial\<lparr>registerWG := 0\<rparr>)) = Return FLB_RETRY"
  using no_plugin_is_retry [of initial FLB_OK False]
    no_plugin_is_retry [of "initial\<lparr>registerWG := 0\<rparr>" FLB_OK False]
  by (simp add: initial_def)

subsection \<open>The poll entry point\<close>

lemma drain_loop_encode_fails:
  assumes "ctx = Running \<or> (ctx \<noteq> NilContext \<and> (\<forall>n. \<not> pick n))"
    and "msg \<in> set q" and "enc msg = Inl err"
  shows "fst (drain_loop enc pick ctx cl q buf) = Some EncodeFailed"
  using assms(2)
proof (induction q arbitrary: buf)
  case Nil
  then show ?case by simp
next
  case (Cons m q)
  have step: "drain_loop enc pick ctx cl (m # q) buf =
      (case enc m of
         Inl err \<Rightarrow> (Some EncodeFailed, buf, q)
       | Inr b \<Rightarrow> drain_loop enc pick ctx cl q (buf @ b))"
  proof (cases ctx)
    case NilContext
    with assms(1) show ?thesis by simp
  next
    case Running
    then show ?thesis by (simp split: sum.splits)
  next
    case (Done e)
    with assms(1) have "\<not> pick (length (m # q))" by blast
    with Done show ?thesis by (simp split: sum.splits)
  qed
  show ?case
  proof (cases "enc m")
    case (Inl e)
    then show ?thesis by (simp del: drain_loop.simps add: step)
  next
    case (Inr b)
    with assms(3) Cons.prems have "msg \<in> set q" by auto
    then have "fst (drain_loop enc pick ctx cl q (buf @ b)) = Some EncodeFailed"
      by (rule Cons.IH)
    with Inr show ?thesis by (simp del: drain_loop.simps add: step)
  qed
qed

lemma error_sets_no_batch:
  "fst (snd (FLBPluginInputCallback enc pick s)) \<noteq> None
     \<Longrightarrow> fst (FLBPluginInputCallback enc pick s) = Return FLB_OK"
  by (auto simp: FLBPluginInputCallback_def Let_def
      split: option.splits if_splits prod.splits drain_stop.splits)

text \<open>
  C7. A poll call that finds buffered a message whose encoding fails, and whose
  \<^verbatim>\<open>select\<close> goes on receiving while messages are buffered, returns ERROR and stores
  nothing through the output pointer and size: no batch reaches the host.
\<close>

theorem drain_encode_failure:
  assumes "initWG s = 0" and "theInput s = Some inp" and "once s" and "\<not> buflock s"
    and "theChannel s = Some ch"
    and "runCtx s = Running \<or> (runCtx s \<noteq> NilContext \<and> (\<forall>n. \<not> pick n))"
    and "msg \<in> set (queue ch)" and "enc msg = Inl err"
  shows "fst (FLBPluginInputCallback enc pick s) = Return FLB_ERROR
       \<and> fst (snd (FLBPluginInputCallback enc pick s)) = None"
proof -
  have q: "length (queue ch) > 0" using assms(7) by (cases "queue ch") auto
  have "fst (drain_loop enc pick (runCtx s) (closed ch) (queue ch) []) = Some EncodeFailed"
    using assms(6,7,8) by (rule drain_loop_encode_fails)
  then obtain buf rest where
    "drain_loop enc pick (runCtx s) (closed ch) (queue ch) [] = (Some EncodeFailed, buf, rest)"
    by (cases "drain_loop enc pick (runCtx s) (closed ch) (queue ch) []") auto
  with assms(1-5) q show ?thesis
    by (simp add: FLBPluginInputCallback_def once_Do_def)
qed

lemma input_state_eval:
  "input_state inp = initial\<lparr>atomicUint32 := 1, theName := ''in'', theDesc := ''an input'',
     theInput := Some inp, registerWG := 0, initWG := 0, unregister := Some Input\<rparr>"
  by (simp add: input_state_def RegisterInput_def mustOnce_def initial_def
      FLBPluginRegister_def FLBPluginInit_def wg_done_def)

lemma buffered_eval:
  "buffered = initial\<lparr>atomicUint32 := 1, theName := ''in'', theDesc := ''an input'',
     theInput := Some \<lparr>in_init_fails = False\<rparr>, registerWG := 0, initWG := 0, once := True,
     runCtx := Running,
     theChannel := Some \<lparr>capacity = 300000, queue = [msg1, msg2], closed = False\<rparr>,
     unregister := Some Input, starts := 1\<rparr>"
  by (simp add: buffered_def input_state_eval FLBPluginInputCallback_def initial_def once_Do_def
      input_start_def redistribute_def)

theorem drain_encode_failure_witness:
  "initWG buffered = 0 \<and> theInput buffered = Some \<lparr>in_init_fails = False\<rparr> \<and> once buffered
   \<and> \<not> buflock buffered
   \<and> theChannel buffered = Some \<lparr>capacity = 300000, queue = [msg1, msg2], closed = False\<rparr>
   \<and> runCtx buffered = Running \<and> failing_enc msg2 = Inl ()
   \<and> fst (FLBPluginInputCallback failing_enc (\<lambda>n. False) buffered) = Return FLB_ERROR
   \<and> fst (snd (FLBPluginInputCallback failing_enc (\<lambda>n. False) buffered)) = None"
proof -
  have h: "initWG buffered = 0" "theInput buffered = Some \<lparr>in_init_fails = False\<rparr>"
    "once buffered" "\<not> buflock buffered"
    "theChannel buffered = Some \<lparr>capacity = 300000, queue = [msg1, msg2], closed = False\<rparr>"
    by (simp_all add: buffered_eval initial_def)
  have c: "runCtx buffered = Running \<or> (runCtx buffered \<noteq> NilContext \<and> (\<forall>n. \<not> (\<lambda>n. False) n))"
    by (simp add: buffered_eval initial_def)
  have m: "msg2 \<in> set (queue \<lparr>capacity = 300000, queue = [msg1, msg2], closed = False\<rparr>)"
    by simp
  have e: "failing_enc msg2 = Inl ()" by (simp add: failing_enc_def)
  have r: "runCtx buffered = Running" by (simp add: buffered_eval initial_def)
  show ?thesis
    using drain_encode_failure [where enc = failing_enc and msg = msg2, OF h c m e] h r e by simp
qed

subsection \<open>The one-shot start\<close>

lemma send_keeps_once:
  "send m s = Inr s' \<Longrightarrow> once s' = once s \<and> starts s' = starts s"
  by (auto simp: send_def split: option.splits if_splits)

lemma flush_loop_keeps_once:
  "once (snd (flush_loop ctag c ds s)) = once s \<and> starts (snd (flush_loop ctag c ds s)) = starts s"
proof (induction ctag c ds s rule: flush_loop.induct)
  case (1 ctag c ds s)
  show ?case
  proof (cases "ctx_poll (runCtx s) c")
    case NilContext
    then show ?thesis by (subst (1 2) flush_loop.simps) simp
  next
    case (Done e)
    then show ?thesis by (subst (1 2) flush_loop.simps) simp
  next
    case Running
    show ?thesis
    proof (cases ds)
      case Nil
      with Running show ?thesis by (subst (1 2) flush_loop.simps) simp
    next
      case (Cons d rest)
      show ?thesis
      proof (cases d)
        case DecodeErr
        with Running Cons show ?thesis by (subst (1 2) flush_loop.simps) simp
      next
        case (Entry entry)
        show ?thesis
        proof (cases "entry_message ctag entry")
          case (Inl e)
          with Running Cons Entry show ?thesis by (subst (1 2) flush_loop.simps) simp
        next
          case (Inr m)
          show ?thesis
          proof (cases "send m s")
            case (Inl b)
            with Running Cons Entry Inr show ?thesis by (subst (1 2) flush_loop.simps) simp
          next
            case sent: (Inr s')
            have "once (snd (flush_loop ctag (tick c) rest s')) = once s'
                \<and> starts (snd (flush_loop ctag (tick c) rest s')) = starts s'"
              using "1.IH" Running Cons Entry Inr sent by blast
            with send_keeps_once [OF sent] Running Cons Entry Inr sent show ?thesis
              by (subst (1 2) flush_loop.simps) simp
          qed
        qed
      qed
    qed
  qed
qed

lemma flush_call_once:
  "once (snd (FLBPluginFlush dec env data ctag s))
     = (once s \<or> (initWG s = 0 \<and> theOutput s \<noteq> None))
   \<and> starts (snd (FLBPluginFlush dec env data ctag s))
     = (if \<not> once s \<and> initWG s = 0 \<and> theOutput s \<noteq> None then starts s + 1 else starts s)"
  by (auto simp: FLBPluginFlush_def Let_def once_Do_def flush_start_def flush_loop_keeps_once
      split: option.splits go_context.splits)

lemma poll_call_once:
  "once (snd (snd (FLBPluginInputCallback enc pick s)))
     = (once s \<or> (initWG s = 0 \<and> theInput s \<noteq> None))
   \<and> starts (snd (snd (FLBPluginInputCallback enc pick s)))
     = (if \<not> once s \<and> initWG s = 0 \<and> theInput s \<noteq> None then starts s + 1 else starts s)"
  by (auto simp: FLBPluginInputCallback_def Let_def once_Do_def input_start_def
      split: option.splits prod.splits drain_stop.splits)

lemma do_call_once:
  "once (snd (do_call enc dec c s)) = (once s \<or> reaches_once c s)
   \<and> starts (snd (do_call enc dec c s))
     = (if \<not> once s \<and> reaches_once c s then starts s + 1 else starts s)"
proof (cases c)
  case (PollCall pick)
  then show ?thesis using poll_call_once [of enc pick s]
    by (cases "FLBPluginInputCallback enc pick s") auto
next
  case (FlushCall env data ctag)
  then show ?thesis using flush_call_once [of dec env data ctag s] by simp
qed

lemma run_calls_step:
  "run_calls enc dec (c # cs) s =
     (case fst (do_call enc dec c s) of
        Panics p \<Rightarrow> snd (do_call enc dec c s)
      | r \<Rightarrow> run_calls enc dec cs (snd (do_call enc dec c s)))"
  by (cases "do_call enc dec c s") (simp split: outcome.splits)

lemma run_calls_started:
  "once s \<Longrightarrow> once (run_calls enc dec cs s) \<and> starts (run_calls enc dec cs s) = starts s"
proof (induction cs arbitrary: s)
  case Nil
  then show ?case by simp
next
  case (Cons c cs)
  let ?s = "snd (do_call enc dec c s)"
  have s: "once ?s" "starts ?s = starts s"
    using do_call_once [of enc dec c s] Cons.prems by simp_all
  from Cons.IH [OF s(1)] s show ?case
    by (simp only: run_calls_step split: outcome.splits) simp
qed

lemma run_calls_bound:
  "\<not> once s \<Longrightarrow> starts (run_calls enc dec cs s) \<le> starts s + 1"
proof (induction cs arbitrary: s)
  case Nil
  then show ?case by simp
next
  case (Cons c cs)
  let ?s = "snd (do_call enc dec c s)"
  show ?case
  proof (cases "reaches_once c s")
    case True
    then have s: "once ?s" "starts ?s = starts s + 1"
      using do_call_once [of enc dec c s] Cons.prems by simp_all
    from run_calls_started [OF s(1), of enc dec cs] s show ?thesis
      by (simp only: run_calls_step split: outcome.splits) simp
  next
    case False
    then have s: "\<not> once ?s" "starts ?s = starts s"
      using do_call_once [of enc dec c s] Cons.prems by simp_all
    from Cons.IH [OF s(1)] s show ?thesis
      by (simp only: run_calls_step split: outcome.splits) simp
  qed
qed

text \<open>
  C8. In a process whose start action has not run, no run of poll and flush calls runs
  it more than once; the first call that gets as far as \<^verbatim>\<open>once.Do\<close> runs it, and after
  that call no further call runs it again.
\<close>

theorem start_action_at_most_once:
  assumes "starts s = 0" and "\<not> once s"
  shows "starts (run_calls enc dec cs s) \<le> 1
       \<and> (reaches_once c s \<longrightarrow> starts (run_calls enc dec (c # cs) s) = 1)"
proof -
  have a: "starts (run_calls enc dec cs s) \<le> 1"
    using run_calls_bound [OF assms(2), of enc dec cs] assms(1) by simp
  have b: "starts (run_calls enc dec (c # cs) s) = 1" if r: "reaches_once c s"
  proof -
    let ?s = "snd (do_call enc dec c s)"
    have s: "once ?s" "starts ?s = 1"
      using do_call_once [of enc dec c s] assms r by simp_all
    from run_calls_started [OF s(1), of enc dec cs] s show ?thesis
      by (simp only: run_calls_step split: outcome.splits) simp
  qed
  from a b show ?thesis by blast
qed

theorem start_action_at_most_once_witness:
  "starts (input_state \<lparr>in_init_fails = False\<rparr>) = 0
   \<and> \<not> once (input_state \<lparr>in_init_fails = False\<rparr>)
   \<and> reaches_once (PollCall (\<lambda>n. False) :: wire list call) (input_state \<lparr>in_init_fails = False\<rparr>)
   \<and> starts (run_calls Encode Decoder [PollCall (\<lambda>n. False), FlushCall calm [] ''mytag'']
        (input_state \<lparr>in_init_fails = False\<rparr>)) \<le> 1
   \<and> starts (run_calls Encode Decoder
        [PollCall (\<lambda>n. False), PollCall (\<lambda>n. False), FlushCall calm [] ''mytag'']
        (input_state \<lparr>in_init_fails = False\<rparr>)) = 1"
proof -
  let ?s = "input_state \<lparr>in_init_fails = False\<rparr>"
  have h: "starts ?s = 0" "\<not> once ?s"
    "reaches_once (PollCall (\<lambda>n. False) :: wire list call) ?s"
    by (simp_all add: input_state_eval initial_def)
  show ?thesis
    using start_action_at_most_once [OF h(1,2), of Encode Decoder
        "[PollCall (\<lambda>n. False), FlushCall calm [] ''mytag'']" "PollCall (\<lambda>n. False)"] h
    by simp
qed

subsection \<open>Configuration values\<close>

lemma Contains_sublist: "Contains s substr \<longleftrightarrow> sublist substr s"
  by (induction s) (simp_all add: sublist_Cons_right)

text \<open>
  C9. The lookup returns a string for every raw value: the unquoted value when the raw
  value parses as a quoted literal; otherwise, when it contains a backslash followed
  by \<open>n\<close> and parses once wrapped in double quotes, the unescaped value; and the raw
  value itself in every other case.
\<close>

theorem unquote_config_value:
  "(Unquote (conf key) = Some t \<longrightarrow> String Unquote conf key = t)
   \<and> (Unquote (conf key) = None \<and> sublist [CHR 0x5C, CHR ''n''] (conf key)
        \<and> Unquote ([CHR 0x22] @ conf key @ [CHR 0x22]) = Some t
      \<longrightarrow> String Unquote conf key = t)
   \<and> (Unquote (conf key) = None
        \<and> (\<not> sublist [CHR 0x5C, CHR ''n''] (conf key)
            \<or> Unquote ([CHR 0x22] @ conf key @ [CHR 0x22]) = None)
      \<longrightarrow> String Unquote conf key = conf key)"
  by (auto simp: String_def unquote_def Contains_sublist)

lemma escaped_has_newline: "sublist [CHR 0x5C, CHR ''n''] escaped_value"
  unfolding Contains_sublist [symmetric] by (simp add: escaped_value_def)

lemma plain_has_no_newline: "\<not> sublist [CHR 0x5C, CHR ''n''] ''plain''"
  unfolding Contains_sublist [symmetric] by simp

theorem unquote_config_value_witness:
  "Unquote_table (conf_table ''quoted'') = Some ''x''
   \<and> String Unquote_table conf_table ''quoted'' = ''x''
   \<and> Unquote_table (conf_table ''escaped'') = None
   \<and> sublist [CHR 0x5C, CHR ''n''] (conf_table ''escaped'')
   \<and> String Unquote_table conf_table ''escaped'' = [CHR ''a'', CHR 0x0A, CHR ''b'']
   \<and> Unquote_table (conf_table ''other'') = None
   \<and> String Unquote_table conf_table ''other'' = ''plain''"
proof -
  have q: "Unquote_table (conf_table ''quoted'') = Some ''x''"
    by (simp add: Unquote_table_def conf_table_def)
  have e: "Unquote_table (conf_table ''escaped'') = None"
    "sublist [CHR 0x5C, CHR ''n''] (conf_table ''escaped'')"
    "Unquote_table ([CHR 0x22] @ conf_table ''escaped'' @ [CHR 0x22])
       = Some [CHR ''a'', CHR 0x0A, CHR ''b'']"
    using escaped_has_newline
    by (simp_all add: Unquote_table_def conf_table_def quoted_value_def escaped_value_def)
  have p: "Unquote_table (conf_table ''other'') = None"
    "\<not> sublist [CHR 0x5C, CHR ''n''] (conf_table ''other'')"
    using plain_has_no_newline
    by (simp_all add: Unquote_table_def conf_table_def quoted_value_def escaped_value_def)
  have pv: "conf_table ''other'' = ''plain''" by (simp add: conf_table_def)
  show ?thesis
    using unquote_config_value [of Unquote_table conf_table "''quoted''" "''x''"]
      unquote_config_value [of Unquote_table conf_table "''escaped''" "[CHR ''a'', CHR 0x0A, CHR ''b'']"]
      unquote_config_value [of Unquote_table conf_table "''other''" "''x''"]
      q e p
    by (simp add: pv)
qed

subsection \<open>The codec\<close>






lemma update_fresh: "k \<notin> fst ` set al \<Longrightarrow> AList.update k v al = al @ [(k, v)]"
  by (induction al) auto





text \<open>
  The record of a decoded pair: each key with the string of its value, the last value
  where a key comes twice.
\<close>

lemma fold_update_distinct:
  assumes "distinct (map fst kvs)" and "\<forall>k \<in> fst ` set kvs. k \<notin> fst ` set acc"
  shows "fold (\<lambda>(k, v). AList.update k (string_of_bytes v)) kvs acc
     = acc @ map (\<lambda>(k, v). (k, string_of_bytes v)) kvs"
  using assms
proof (induction kvs arbitrary: acc)
  case Nil
  then show ?case by simp
next
  case (Cons kv kvs)
  obtain k v where kv: "kv = (k, v)" by (cases kv)
  have fresh: "k \<notin> fst ` set acc" using Cons.prems(2) kv by simp
  have d: "distinct (map fst kvs)" and nk: "k \<notin> fst ` set kvs"
    using Cons.prems(1) kv by auto
  have f: "\<forall>k' \<in> fst ` set kvs. k' \<notin> fst ` set (acc @ [(k, string_of_bytes v)])"
    using Cons.prems(2) nk by auto
  show ?case
    using Cons.IH [OF d f] by (simp add: kv update_fresh [OF fresh])
qed

lemma rec_of_distinct:
  "distinct (map fst kvs) \<Longrightarrow> rec_of kvs = map (\<lambda>(k, v). (k, string_of_bytes v)) kvs"
  using fold_update_distinct [of kvs "[]"] by (simp add: rec_of_def)

lemma map_of_rec_of:
  "map_of (rec_of kvs) = map_of (rev (map (\<lambda>(k, v). (k, string_of_bytes v)) kvs))"
proof -
  have "map_of (fold (\<lambda>(k, v). AList.update k (string_of_bytes v)) kvs acc)
      = map_of (rev (map (\<lambda>(k, v). (k, string_of_bytes v)) kvs) @ acc)" for acc
  proof (induction kvs arbitrary: acc)
    case Nil
    then show ?case by simp
  next
    case (Cons kv kvs)
    obtain k v where kv: "kv = (k, v)" by (cases kv)
    show ?case by (simp add: kv Cons.IH update_conv' map_add_def fun_eq_iff split: option.splits)
  qed
  from this [of "[]"] show ?thesis by (simp add: rec_of_def)
qed

text \<open>With that encoder and a live context, a drain leaves the encodings in a row.\<close>

lemma drain_loop_Encode:
  "drain_loop Encode pick Running False q buf = (None, buf @ map encode_message q, [])"
  by (induction q arbitrary: buf) (simp_all add: Encode_def)

end
